theory Spec2Isabelle
  imports Complex_Main "HOL-Library.Sublist" "HOL-Library.Multiset" "HOL-Library.Char_ord"
    "HOL-Library.List_Lexorder"
begin

section \<open>Strings and the library boundary\<close>

text \<open>
  Python strings are modelled by their UTF-8 byte sequences (\<open>string\<close>). Substring tests,
  prefix and suffix tests, \<open>str.replace\<close>, \<open>str.split\<close> on an ASCII separator and the
  code-point order used by \<open>sorted\<close> all agree with their byte-level counterparts on
  well-formed UTF-8. The Japanese keywords of the source are written out as bytes.

  Every pure function the code calls in third-party libraries or in the Python runtime
  beyond this (case mapping, HTML parsing, URL parsing, regular expressions, phone-number
  parsing, public-suffix lookup) is a field of the record \<open>lib\<close>: the theorems hold for
  every behaviour of these functions. \<open>'pn\<close> is the library's parsed phone number.
  These functions are taken to return: an exception that a library raises and the code
  does not catch (a malformed URL in \<open>urlparse\<close>, say) is outside the model. The one
  exception the code does catch in them, \<open>NumberParseException\<close>, is the result \<open>None\<close> of
  \<open>pn_parse\<close>.

  The one effect is the HTTP request. It is a function
  \<open>get :: 'w \<Rightarrow> string \<Rightarrow> response option \<times> 'w\<close> passed to every operation that
  fetches: \<open>'w\<close> is the state of the outside world, which a request reads and changes,
  so the same URL may be answered differently each time. The result \<open>None\<close> stands for a
  \<open>RequestException\<close> raised by \<open>session.get\<close> or by \<open>raise_for_status\<close>.
\<close>

record anchor =
  a_href :: string   \<comment> \<open>\<open>anchor.get("href")\<close>\<close>
  a_text :: string   \<comment> \<open>\<open>anchor.get_text()\<close>\<close>

record parsed_url =
  scheme :: string
  netloc :: string
  path :: string
  params :: string
  query :: string
  fragment :: string

record response =
  resp_url :: string    \<comment> \<open>\<open>response.url\<close>, the final URL after redirects\<close>
  resp_text :: string   \<comment> \<open>\<open>response.text\<close>\<close>

record 'pn lib =
  py_lower :: "string \<Rightarrow> string"                 \<comment> \<open>\<open>str.lower\<close>\<close>
  py_upper :: "string \<Rightarrow> string"                 \<comment> \<open>\<open>str.upper\<close>\<close>
  py_strip :: "string \<Rightarrow> string"                 \<comment> \<open>\<open>str.strip\<close>\<close>
  soup_get_text :: "string \<Rightarrow> string"            \<comment> \<open>\<open>BeautifulSoup(html).get_text(" ", strip=True)\<close>\<close>
  soup_anchors :: "string \<Rightarrow> anchor list"         \<comment> \<open>\<open>BeautifulSoup(html).find_all("a", href=True)\<close>\<close>
  soup_stripped_strings :: "string \<Rightarrow> string list" \<comment> \<open>\<open>BeautifulSoup(html).stripped_strings\<close>\<close>
  urlparse :: "string \<Rightarrow> parsed_url"
  geturl :: "parsed_url \<Rightarrow> string"
  url_hostname :: "parsed_url \<Rightarrow> string option"  \<comment> \<open>the \<open>hostname\<close> property\<close>
  urljoin :: "string \<Rightarrow> string \<Rightarrow> string"
  re_search_ci :: "string \<Rightarrow> string \<Rightarrow> bool"
    \<comment> \<open>\<open>re.search(re.escape(pat), text, re.IGNORECASE)\<close> found a match\<close>
  email_fullmatch :: "string \<Rightarrow> bool"            \<comment> \<open>\<open>EMAIL_PATTERN.fullmatch\<close> found a match\<close>
  email_findall :: "string \<Rightarrow> string list"        \<comment> \<open>\<open>EMAIL_PATTERN.findall\<close>\<close>
  phone_findall :: "string \<Rightarrow> string list"        \<comment> \<open>\<open>PHONE_PATTERN.findall\<close>\<close>
  pn_parse :: "string \<Rightarrow> string option \<Rightarrow> 'pn option"
    \<comment> \<open>\<open>phonenumbers.parse(digits, region)\<close>; \<open>None\<close> is a \<open>NumberParseException\<close>\<close>
  pn_is_valid_number :: "'pn \<Rightarrow> bool"
  pn_format_e164 :: "'pn \<Rightarrow> string"
  tld_extract :: "string \<Rightarrow> string \<times> string"    \<comment> \<open>\<open>tldextract.extract\<close>: domain and suffix\<close>

text \<open>\<open>old in s\<close> is \<^term>\<open>sublist old s\<close>; \<open>s.replace(old, new)\<close> for a non-empty \<open>old\<close>:\<close>

function replace :: "string \<Rightarrow> string \<Rightarrow> string \<Rightarrow> string" where
  "replace old new [] = []"
| "replace old new (c # cs) =
     (if old \<noteq> [] \<and> prefix old (c # cs)
      then new @ replace old new (drop (length old) (c # cs))
      else c # replace old new cs)"
  by pat_completeness auto
termination
  by (relation "measure (\<lambda>(old, new, s). length s)") (auto simp: neq_Nil_conv)

text \<open>\<open>", ".join(parts)\<close> and friends.\<close>

fun join :: "string \<Rightarrow> string list \<Rightarrow> string" where
  "join sep [] = []"
| "join sep [x] = x"
| "join sep (x # y # ys) = x @ sep @ join sep (y # ys)"

text \<open>Truthiness of an \<open>Optional[str]\<close>: \<open>None\<close> and the empty string are false.\<close>

fun truthy :: "string option \<Rightarrow> bool" where
  "truthy None = False"
| "truthy (Some s) = (s \<noteq> [])"

section \<open>Data model (models.py)\<close>

record search_result =
  sr_title :: string
  sr_url :: string
  sr_snippet :: "string option"
  sr_rank :: "int option"

record page_content =
  pc_url :: string
  pc_html :: string
  pc_text :: string

record extraction_result =
  contact_form_url :: "string option"
  email_main :: "string option"
  email_role_based :: "string list"
  email_guessed :: "string list"
  phone_main :: "string option"
  fax_main :: "string option"
  sns :: "(string \<times> string) list"   \<comment> \<open>a dict, in insertion order\<close>
  evidence_sources :: "string list"

record settings =
  crawler_max_pages :: int
  crawler_max_depth :: int

section \<open>Vocabularies\<close>

definition CONTACT_KEYWORDS :: "string list" where
  "CONTACT_KEYWORDS =
    [''contact'', ''inquiry'', ''form'',
     [CHR 0xE3, CHR 0x81, CHR 0x8A, CHR 0xE5, CHR 0x95, CHR 0x8F, CHR 0xE3, CHR 0x81, CHR 0x84,
      CHR 0xE5, CHR 0x90, CHR 0x88, CHR 0xE3, CHR 0x82, CHR 0x8F, CHR 0xE3, CHR 0x81, CHR 0x9B],
     [CHR 0xE5, CHR 0x95, CHR 0x8F, CHR 0xE5, CHR 0x90, CHR 0x88, CHR 0xE3, CHR 0x81, CHR 0x9B],
     [CHR 0xE9, CHR 0x80, CHR 0xA3, CHR 0xE7, CHR 0xB5, CHR 0xA1],
     [CHR 0xE8, CHR 0xB3, CHR 0x87, CHR 0xE6, CHR 0x96, CHR 0x99, CHR 0xE8, CHR 0xAB, CHR 0x8B,
      CHR 0xE6, CHR 0xB1, CHR 0x82]]"

definition ROLE_EMAIL_KEYWORDS :: "string list" where
  "ROLE_EMAIL_KEYWORDS =
    [''info'', ''sales'', ''support'', ''contact'', ''inquiry'', ''customer'', ''hello'',
     ''pr'', ''press'', ''ir'']"

text \<open>
  \<open>SNS_PATTERNS\<close> is a dict; its iteration order is the insertion order of the literal, kept
  here as an association list.
\<close>

definition SNS_PATTERNS :: "(string \<times> string list) list" where
  "SNS_PATTERNS =
    [(''sns_linkedin'', [''linkedin.com/company'', ''linkedin.com/in'']),
     (''sns_x'', [''twitter.com'', ''x.com'']),
     (''sns_instagram'', [''instagram.com'']),
     (''sns_facebook'', [''facebook.com'', ''fb.me''])]"

definition OFFICIAL_KEYWORDS :: "string list" where
  "OFFICIAL_KEYWORDS =
    [[CHR 0xE4, CHR 0xBC, CHR 0x9A, CHR 0xE7, CHR 0xA4, CHR 0xBE, CHR 0xE6, CHR 0xA6, CHR 0x82,
      CHR 0xE8, CHR 0xA6, CHR 0x81],
     [CHR 0xE4, CHR 0xBC, CHR 0x81, CHR 0xE6, CHR 0xA5, CHR 0xAD, CHR 0xE6, CHR 0x83, CHR 0x85,
      CHR 0xE5, CHR 0xA0, CHR 0xB1],
     [CHR 0xE4, CHR 0xBC, CHR 0x81, CHR 0xE6, CHR 0xA5, CHR 0xAD, CHR 0xE6, CHR 0xA1, CHR 0x88,
      CHR 0xE5, CHR 0x86, CHR 0x85],
     ''About'', ''Corporate'',
     [CHR 0xE6, CHR 0xB2, CHR 0xBF, CHR 0xE9, CHR 0x9D, CHR 0xA9]]"

text \<open>\<open>any(keyword in s for keyword in keywords)\<close>\<close>

definition any_keyword_in :: "string list \<Rightarrow> string \<Rightarrow> bool" where
  "any_keyword_in keywords s = list_ex (\<lambda>keyword. sublist keyword s) keywords"

section \<open>PageFetcher.fetch\<close>

type_synonym 'w http_get = "'w \<Rightarrow> string \<Rightarrow> response option \<times> 'w"

definition fetch ::
  "'pn lib \<Rightarrow> 'w http_get \<Rightarrow> 'w \<Rightarrow> string \<Rightarrow> page_content option \<times> 'w" where
  "fetch L get w u =
     (case get w u of
        (None, w') \<Rightarrow> (None, w')
      | (Some r, w') \<Rightarrow>
          (Some \<lparr>pc_url = resp_url r, pc_html = resp_text r,
                 pc_text = soup_get_text L (resp_text r)\<rparr>, w'))"

section \<open>OfficialSiteSelector (site_selector.py)\<close>

record site_candidate =
  sc_search_result :: search_result
  sc_page :: "page_content option"
  sc_score :: rat

text \<open>
  The scores are Python floats. Every score is a sum of at most eleven terms out of
  \<open>3.0\<close>, \<open>2.0\<close>, \<open>1.0\<close>, \<open>0.5\<close> and \<open>-2.0\<close>, all of them and all partial sums exactly
  representable, so float addition and comparison agree with the rationals here.
\<close>

definition normalize_company_name :: "'pn lib \<Rightarrow> string \<Rightarrow> string" where
  "normalize_company_name L name =
     (let normalized = py_lower L name;
          normalized = replace [CHR 0xE6, CHR 0xA0, CHR 0xAA, CHR 0xE5, CHR 0xBC, CHR 0x8F,
                                CHR 0xE4, CHR 0xBC, CHR 0x9A, CHR 0xE7, CHR 0xA4, CHR 0xBE] []
                         normalized;
          normalized = replace [CHR 0xE6, CHR 0x9C, CHR 0x89, CHR 0xE9, CHR 0x99, CHR 0x90,
                                CHR 0xE4, CHR 0xBC, CHR 0x9A, CHR 0xE7, CHR 0xA4, CHR 0xBE] []
                         normalized;
          normalized = replace ''inc.'' [] normalized;
          normalized = replace ''co., ltd.'' [] normalized
      in filter (\<lambda>c. (CHR ''a'' \<le> c \<and> c \<le> CHR ''z'') \<or> (CHR ''0'' \<le> c \<and> c \<le> CHR ''9''))
           normalized)"

definition score_candidate :: "'pn lib \<Rightarrow> string \<Rightarrow> page_content \<Rightarrow> rat" where
  "score_candidate L normalized_name page =
     (let hostname = (case url_hostname L (urlparse L (pc_url page)) of
                        None \<Rightarrow> [] | Some h \<Rightarrow> h);
          score = 0;
          score = (if normalized_name \<noteq> [] \<and>
                      sublist normalized_name (normalize_company_name L hostname)
                   then score + 3 else score);
          score = (if re_search_ci L normalized_name (pc_text page)
                   then score + 2 else score);
          score = fold (\<lambda>keyword s. if sublist keyword (pc_text page) then s + 1 else s)
                    OFFICIAL_KEYWORDS score;
          score = (if any_keyword_in CONTACT_KEYWORDS (pc_text page)
                   then score + 1 / 2 else score);
          score = (if suffix ''.go.jp'' hostname then score - 2 else score)
      in score)"

fun select_loop ::
  "'pn lib \<Rightarrow> 'w http_get \<Rightarrow> string \<Rightarrow> search_result list \<Rightarrow> site_candidate option \<Rightarrow> 'w
     \<Rightarrow> site_candidate option \<times> 'w" where
  "select_loop L get normalized_name [] best w = (best, w)"
| "select_loop L get normalized_name (result # rest) best w =
     (if sr_url result = [] then select_loop L get normalized_name rest best w
      else case fetch L get w (sr_url result) of
        (None, w') \<Rightarrow> select_loop L get normalized_name rest best w'
      | (Some page, w') \<Rightarrow>
          (let score = score_candidate L normalized_name page in
           if (case best of None \<Rightarrow> True | Some b \<Rightarrow> score > sc_score b)
           then select_loop L get normalized_name rest
                  (Some \<lparr>sc_search_result = result, sc_page = Some page, sc_score = score\<rparr>) w'
           else select_loop L get normalized_name rest best w'))"

definition select ::
  "'pn lib \<Rightarrow> 'w http_get \<Rightarrow> string \<Rightarrow> search_result list \<Rightarrow> 'w
     \<Rightarrow> site_candidate option \<times> 'w" where
  "select L get company_name candidates w =
     select_loop L get (normalize_company_name L company_name) candidates None w"

text \<open>
  What the selection is compared with: the candidates that were fetched successfully, in
  input order, each with its page and score (the world is threaded through the requests
  as the loop does), and the first of them that no other one outscores.
\<close>

fun fetched_candidates ::
  "'pn lib \<Rightarrow> 'w http_get \<Rightarrow> string \<Rightarrow> search_result list \<Rightarrow> 'w \<Rightarrow> site_candidate list" where
  "fetched_candidates L get normalized_name [] w = []"
| "fetched_candidates L get normalized_name (result # rest) w =
     (if sr_url result = [] then fetched_candidates L get normalized_name rest w
      else case fetch L get w (sr_url result) of
        (None, w') \<Rightarrow> fetched_candidates L get normalized_name rest w'
      | (Some page, w') \<Rightarrow>
          \<lparr>sc_search_result = result, sc_page = Some page,
           sc_score = score_candidate L normalized_name page\<rparr>
          # fetched_candidates L get normalized_name rest w')"

definition first_max :: "site_candidate list \<Rightarrow> site_candidate option" where
  "first_max cs = find (\<lambda>c. list_all (\<lambda>d. sc_score d \<le> sc_score c) cs) cs"

text \<open>
  Observing the requests: \<open>logged get\<close> answers as \<open>get\<close> does and appends each requested
  URL to a log carried beside the world.
\<close>

definition logged :: "'w http_get \<Rightarrow> ('w \<times> string list) http_get" where
  "logged get = (\<lambda>(w, urls) u. case get w u of (r, w') \<Rightarrow> (r, (w', urls @ [u])))"

text \<open>The update of \<open>best\<close> in the loop body of \<open>select\<close>.\<close>

definition keep_better :: "site_candidate \<Rightarrow> site_candidate option \<Rightarrow> site_candidate option" where
  "keep_better c best =
     (if (case best of None \<Rightarrow> True | Some b \<Rightarrow> sc_score c > sc_score b) then Some c else best)"

section \<open>SiteCrawler (site_scraper.py)\<close>

definition normalize_url :: "'pn lib \<Rightarrow> string \<Rightarrow> string" where
  "normalize_url L u = geturl L ((urlparse L u)\<lparr>fragment := []\<rparr>)"

text \<open>
  The body of \<open>for link in soup.find_all("a", href=True)\<close>, run over the anchors of a page:
  the deque is a list, \<open>appendleft\<close> is \<open>#\<close> and \<open>append\<close> adds at the end.
\<close>

fun enqueue_links ::
  "'pn lib \<Rightarrow> string \<Rightarrow> page_content \<Rightarrow> nat \<Rightarrow> anchor list \<Rightarrow> (string \<times> nat) list
     \<Rightarrow> (string \<times> nat) list" where
  "enqueue_links L base_host page depth [] queue = queue"
| "enqueue_links L base_host page depth (link # links) queue =
     (let href = a_href link in
      if href = [] then enqueue_links L base_host page depth links queue
      else
        let abs_url = urljoin L (pc_url page) href;
            parsed = urlparse L abs_url in
        if scheme parsed \<notin> {''http'', ''https''}
          then enqueue_links L base_host page depth links queue
        else if netloc parsed \<noteq> base_host
          then enqueue_links L base_host page depth links queue
        else if any_keyword_in CONTACT_KEYWORDS (py_lower L href)
          then enqueue_links L base_host page depth links ((abs_url, depth + 1) # queue)
        else enqueue_links L base_host page depth links (queue @ [(abs_url, depth + 1)]))"

text \<open>The state of the \<open>while\<close> loop of \<open>crawl\<close>, its condition and its body.\<close>

record 'w crawl_state =
  queue :: "(string \<times> nat) list"
  visited :: "string set"
  results :: "page_content list"
  world :: 'w

definition crawl_cond :: "settings \<Rightarrow> 'w crawl_state \<Rightarrow> bool" where
  "crawl_cond S s = (queue s \<noteq> [] \<and> int (length (results s)) < crawler_max_pages S)"

fun crawl_body ::
  "'pn lib \<Rightarrow> settings \<Rightarrow> 'w http_get \<Rightarrow> string \<Rightarrow> 'w crawl_state \<Rightarrow> 'w crawl_state" where
  "crawl_body L S get base_host s =
     (case queue s of
        [] \<Rightarrow> s
      | (url, depth) # rest \<Rightarrow>
          (let s = s\<lparr>queue := rest\<rparr>;
               normalized_url = normalize_url L url in
           if normalized_url \<in> visited s then s
           else
             let s = s\<lparr>visited := insert normalized_url (visited s)\<rparr> in
             case fetch L get (world s) url of
               (None, w') \<Rightarrow> s\<lparr>world := w'\<rparr>
             | (Some page, w') \<Rightarrow>
                 (let s = s\<lparr>world := w', results := results s @ [page]\<rparr> in
                  if int depth \<ge> crawler_max_depth S then s
                  else s\<lparr>queue := enqueue_links L base_host page depth
                                     (soup_anchors L (pc_html page)) (queue s)\<rparr>)))"

text \<open>
  Links that pass the filters of the loop over the anchors, split by the keyword test:
  those pushed to the front and those appended to the back, in document order.
\<close>

definition kept_link :: "'pn lib \<Rightarrow> string \<Rightarrow> page_content \<Rightarrow> anchor \<Rightarrow> bool" where
  "kept_link L base_host page link =
     (a_href link \<noteq> [] \<and>
      scheme (urlparse L (urljoin L (pc_url page) (a_href link))) \<in> {''http'', ''https''} \<and>
      netloc (urlparse L (urljoin L (pc_url page) (a_href link))) = base_host)"

definition contact_href :: "'pn lib \<Rightarrow> anchor \<Rightarrow> bool" where
  "contact_href L link = any_keyword_in CONTACT_KEYWORDS (py_lower L (a_href link))"

definition front_links ::
  "'pn lib \<Rightarrow> string \<Rightarrow> page_content \<Rightarrow> nat \<Rightarrow> anchor list \<Rightarrow> (string \<times> nat) list" where
  "front_links L base_host page depth links =
     map (\<lambda>link. (urljoin L (pc_url page) (a_href link), depth + 1))
       (filter (\<lambda>link. kept_link L base_host page link \<and> contact_href L link) links)"

definition back_links ::
  "'pn lib \<Rightarrow> string \<Rightarrow> page_content \<Rightarrow> nat \<Rightarrow> anchor list \<Rightarrow> (string \<times> nat) list" where
  "back_links L base_host page depth links =
     map (\<lambda>link. (urljoin L (pc_url page) (a_href link), depth + 1))
       (filter (\<lambda>link. kept_link L base_host page link \<and> \<not> contact_href L link) links)"

lemma enqueue_links_eq:
  "enqueue_links L base_host page depth links q =
     rev (front_links L base_host page depth links) @ q
       @ back_links L base_host page depth links"
  by (induction links arbitrary: q)
     (simp_all add: front_links_def back_links_def kept_link_def contact_href_def Let_def)

text \<open>
  Termination of the loop: every queued entry carries a depth, links are only followed
  from entries below the depth limit, and each of them enters one level deeper. The
  multiset of the remaining levels of the queued entries shrinks in the multiset order.
\<close>

definition levels :: "settings \<Rightarrow> (string \<times> nat) list \<Rightarrow> nat multiset" where
  "levels S q = mset (map (\<lambda>(u, d). nat (crawler_max_depth S - int d)) q)"

lemma levels_pop: "(levels S rest, levels S ((url, depth) # rest)) \<in> mult {(a, b). a < b}"
proof -
  have "(levels S rest + {#}, levels S rest + {#nat (crawler_max_depth S - int depth)#})
          \<in> mult {(a, b). a < b}"
    by (rule one_step_implies_mult) simp_all
  then show ?thesis by (simp add: levels_def)
qed

lemma levels_enqueue:
  assumes "int depth < crawler_max_depth S"
  shows "(levels S (enqueue_links L base_host page depth links rest),
          levels S ((url, depth) # rest)) \<in> mult {(a, b). a < b}"
proof -
  let ?new = "front_links L base_host page depth links @ back_links L base_host page depth links"
  have new: "\<forall>k \<in># levels S ?new. k < nat (crawler_max_depth S - int depth)"
    using assms by (auto simp: levels_def front_links_def back_links_def)
  have "(levels S rest + levels S ?new,
         levels S rest + {#nat (crawler_max_depth S - int depth)#}) \<in> mult {(a, b). a < b}"
    by (rule one_step_implies_mult) (use new in auto)
  then show ?thesis by (simp add: levels_def enqueue_links_eq ac_simps)
qed

lemma crawl_body_decreases:
  assumes "crawl_cond S s"
  shows "(levels S (queue (crawl_body L S get base_host s)), levels S (queue s))
           \<in> mult {(a, b). a < b}"
proof -
  from assms obtain url depth rest where q: "queue s = (url, depth) # rest"
    by (cases "queue s") (auto simp: crawl_cond_def)
  show ?thesis
    using levels_pop [of S rest url depth] levels_enqueue [of depth S L base_host _ _ rest url]
    by (auto simp: q Let_def split: prod.splits option.splits)
qed

function crawl_loop ::
  "'pn lib \<Rightarrow> settings \<Rightarrow> 'w http_get \<Rightarrow> string \<Rightarrow> 'w crawl_state \<Rightarrow> 'w crawl_state" where
  "crawl_loop L S get base_host s =
     (if crawl_cond S s then crawl_loop L S get base_host (crawl_body L S get base_host s)
      else s)"
  by pat_completeness auto
termination
proof (relation "inv_image (mult {(a, b). a < b}) (\<lambda>(L, S, get, base_host, s). levels S (queue s))")
  show "wf (inv_image (mult {(a, b). a < (b::nat)}) (\<lambda>(L, S, get, base_host, s). levels S (queue s)))"
    by (intro wf_inv_image wf_mult) (simp add: wf)
next
  fix L :: "'pn lib" and S and get :: "'w http_get" and base_host and s :: "'w crawl_state"
  assume "crawl_cond S s"
  then show "((L, S, get, base_host, crawl_body L S get base_host s), (L, S, get, base_host, s))
    \<in> inv_image (mult {(a, b). a < b}) (\<lambda>(L, S, get, base_host, s). levels S (queue s))"
    by (simp add: crawl_body_decreases del: crawl_body.simps)
qed

declare crawl_loop.simps [simp del]

definition crawl ::
  "'pn lib \<Rightarrow> settings \<Rightarrow> 'w http_get \<Rightarrow> string \<Rightarrow> 'w \<Rightarrow> page_content list \<times> 'w" where
  "crawl L S get base_url w =
     (let base_host = netloc (urlparse L base_url);
          s = crawl_loop L S get base_host
                \<lparr>queue = [(base_url, 0)], visited = {}, results = [], world = w\<rparr>
      in (results s, world s))"

text \<open>
  The run of the loop from a state \<open>s\<close> is \<open>s\<close>, \<open>crawl_body s\<close>, \<open>crawl_body (crawl_body s)\<close>,
  ... for as long as \<open>crawl_cond\<close> holds; the entry dequeued by an iteration is the head
  of the queue of the state it starts in. \<open>dequeued_before \<dots> s f b\<close>: in the run from \<open>s\<close>,
  whenever an iteration dequeues the entry \<open>b\<close>, an earlier iteration dequeued \<open>f\<close>.
\<close>

definition dequeued_before ::
  "'pn lib \<Rightarrow> settings \<Rightarrow> 'w http_get \<Rightarrow> string \<Rightarrow> 'w crawl_state
     \<Rightarrow> string \<times> nat \<Rightarrow> string \<times> nat \<Rightarrow> bool" where
  "dequeued_before L S get base_host s f b =
     (\<forall>n. (\<forall>m\<le>n. crawl_cond S ((crawl_body L S get base_host ^^ m) s)) \<and>
          hd (queue ((crawl_body L S get base_host ^^ n) s)) = b
          \<longrightarrow> (\<exists>m<n. hd (queue ((crawl_body L S get base_host ^^ m) s)) = f))"

text \<open>The anchor text of a link, normalised as a label is, contains a contact keyword.\<close>

definition contact_text :: "'pn lib \<Rightarrow> anchor \<Rightarrow> bool" where
  "contact_text L link = any_keyword_in CONTACT_KEYWORDS (py_lower L (py_strip L (a_text link)))"

text \<open>
  While a front link \<open>f\<close> of a page is still queued, the queue consists of entries deeper
  than the links of that page, then a rest \<open>R\<close> of its front links that holds \<open>f\<close>, then
  anything.
\<close>

definition front_phase :: "(string \<times> nat) list \<Rightarrow> string \<times> nat \<Rightarrow> nat \<Rightarrow> (string \<times> nat) list \<Rightarrow> bool" where
  "front_phase F f d q =
     (\<exists>D R X. q = D @ R @ X \<and> (\<forall>e \<in> set D. d < snd e) \<and> f \<in> set R \<and> set R \<subseteq> set F)"

text \<open>
  With a logging request function: the requested URLs have pairwise distinct normal forms,
  all of them in \<open>visited\<close>.
\<close>

definition log_ok :: "'pn lib \<Rightarrow> ('w \<times> string list) crawl_state \<Rightarrow> bool" where
  "log_ok L s = (distinct (map (normalize_url L) (snd (world s))) \<and>
                 normalize_url L ` set (snd (world s)) \<subseteq> visited s)"

section \<open>Contact extraction (site_scraper.py)\<close>


text \<open>A Python dict as an association list in insertion order: \<open>d[key] = value\<close>.\<close>

fun dict_set :: "string \<Rightarrow> string \<Rightarrow> (string \<times> string) list \<Rightarrow> (string \<times> string) list" where
  "dict_set key v [] = [(key, v)]"
| "dict_set key v ((k, x) # d) = (if k = key then (k, v) # d else (k, x) # dict_set key v d)"

fun find_contact_link :: "'pn lib \<Rightarrow> anchor list \<Rightarrow> string \<Rightarrow> string option" where
  "find_contact_link L [] current_url = None"
| "find_contact_link L (anchor # anchors) current_url =
     (let label = py_lower L (py_strip L (a_text anchor));
          href = a_href anchor;
          joined = urljoin L current_url href;
          haystack = join '' '' [label, py_lower L href] in
      if any_keyword_in CONTACT_KEYWORDS haystack then Some joined
      else find_contact_link L anchors current_url)"

definition is_email :: "'pn lib \<Rightarrow> string \<Rightarrow> bool" where
  "is_email L email = email_fullmatch L (py_strip L email)"

text \<open>
  \<open>soup.select("a[href^='mailto:']")\<close> selects, in document order, the anchors whose
  \<open>href\<close> begins with \<open>mailto:\<close>; \<open>href.split(":", 1)[1]\<close> is what follows the first
  colon. \<open>email_scan\<close> lists the addresses in the order in which the two loops add them to
  the set \<open>emails\<close>.
\<close>

definition email_scan :: "'pn lib \<Rightarrow> string \<Rightarrow> string list" where
  "email_scan L html =
     map (py_lower L)
       (filter (is_email L)
          (map (\<lambda>mailto. tl (dropWhile (\<lambda>c. c \<noteq> CHR '':'') (a_href mailto)))
             (filter (\<lambda>a. prefix ''mailto:'' (a_href a)) (soup_anchors L html))))
     @ map (py_lower L) (filter (is_email L) (email_findall L (soup_get_text L html)))"

definition extract_emails_from_page :: "'pn lib \<Rightarrow> string \<Rightarrow> string list" where
  "extract_emails_from_page L html = sorted_list_of_set (set (email_scan L html))"

definition is_role_email :: "'pn lib \<Rightarrow> string \<Rightarrow> bool" where
  "is_role_email L email =
     (let local_part = takeWhile (\<lambda>c. c \<noteq> CHR ''@'') email;
          normalized = py_lower L (replace ''_'' [] (replace ''-'' [] local_part)) in
      list_ex (\<lambda>keyword. prefix keyword normalized \<or> sublist keyword normalized)
        ROLE_EMAIL_KEYWORDS)"

text \<open>\<open>re.sub(r"[^0-9+]", "", raw)\<close>\<close>

definition phone_digits :: "string \<Rightarrow> string" where
  "phone_digits raw = filter (\<lambda>c. (CHR ''0'' \<le> c \<and> c \<le> CHR ''9'') \<or> c = CHR ''+'') raw"

definition normalize_phone :: "'pn lib \<Rightarrow> string \<Rightarrow> string option" where
  "normalize_phone L raw =
     (let digits = phone_digits raw in
      if digits = [] then None
      else case (if prefix ''+'' digits then pn_parse L digits None
                 else pn_parse L digits (Some ''JP'')) of
             None \<Rightarrow> None
           | Some parsed \<Rightarrow>
               if \<not> pn_is_valid_number L parsed then None
               else Some (pn_format_e164 L parsed))"

definition FAX_FULLWIDTH :: string where
  "FAX_FULLWIDTH = [CHR 0xEF, CHR 0xBC, CHR 0xA6, CHR 0xEF, CHR 0xBC, CHR 0xA1, CHR 0xEF,
                    CHR 0xBC, CHR 0xB8]"

definition PHONE_MARKERS :: "string list" where
  "PHONE_MARKERS =
     [''TEL'',
      [CHR 0xE9, CHR 0x9B, CHR 0xBB, CHR 0xE8, CHR 0xA9, CHR 0xB1],
      ''Phone'',
      [CHR 0xE9, CHR 0x9B, CHR 0xBB, CHR 0xE8, CHR 0xA9, CHR 0xB1, CHR 0xE7, CHR 0x95, CHR 0xAA,
       CHR 0xE5, CHR 0x8F, CHR 0xB7]]"

text \<open>The loop over the text snippets: \<open>(phone, fax)\<close> is its state.\<close>

fun scan_snippets ::
  "'pn lib \<Rightarrow> string list \<Rightarrow> string option \<times> string option \<Rightarrow> string option \<times> string option" where
  "scan_snippets L [] (phone, fax) = (phone, fax)"
| "scan_snippets L (snippet # snippets) (phone, fax) =
     (if sublist ''FAX'' (py_upper L snippet) \<or> sublist FAX_FULLWIDTH snippet then
        (let candidate = normalize_phone L snippet in
         if truthy candidate then scan_snippets L snippets (phone, candidate)
         else scan_snippets L snippets (phone, fax))
      else if any_keyword_in PHONE_MARKERS snippet then
        (let candidate = normalize_phone L snippet in
         if truthy candidate then scan_snippets L snippets (candidate, fax)
         else scan_snippets L snippets (phone, fax))
      else scan_snippets L snippets (phone, fax))"

text \<open>The fallback loop over the matches of \<open>PHONE_PATTERN\<close>.\<close>

fun scan_matches :: "'pn lib \<Rightarrow> string list \<Rightarrow> string option \<Rightarrow> string option" where
  "scan_matches L [] phone = phone"
| "scan_matches L (m # ms) phone =
     (let normalized = normalize_phone L m in
      if truthy normalized \<and> \<not> truthy phone then scan_matches L ms normalized
      else scan_matches L ms phone)"

definition extract_phone_fax :: "'pn lib \<Rightarrow> string \<Rightarrow> string option \<times> string option" where
  "extract_phone_fax L html =
     (let text_snippets = map (py_strip L) (filter (\<lambda>s. s \<noteq> []) (soup_stripped_strings L html));
          (phone, fax) = scan_snippets L text_snippets (None, None) in
      if \<not> truthy phone \<or> \<not> truthy fax
      then (scan_matches L (phone_findall L (soup_get_text L html)) phone, fax)
      else (phone, fax))"

text \<open>
  The two nested loops of \<open>_extract_sns_links\<close>: over the anchors, and over the table.
  \<open>found\<close> is the dict \<open>results\<close> of the source.
\<close>

fun sns_for_anchor ::
  "string \<Rightarrow> string \<Rightarrow> (string \<times> string list) list \<Rightarrow> (string \<times> string) list
     \<Rightarrow> (string \<times> string) list" where
  "sns_for_anchor abs_url lower [] found = found"
| "sns_for_anchor abs_url lower ((key, patterns) # table) found =
     (if list_ex (\<lambda>pattern. sublist pattern lower) patterns
      then sns_for_anchor abs_url lower table (dict_set key abs_url found)
      else sns_for_anchor abs_url lower table found)"

fun sns_loop ::
  "'pn lib \<Rightarrow> anchor list \<Rightarrow> string \<Rightarrow> (string \<times> string) list \<Rightarrow> (string \<times> string) list" where
  "sns_loop L [] current_url found = found"
| "sns_loop L (anchor # anchors) current_url found =
     (let href = a_href anchor;
          abs_url = urljoin L current_url href;
          lower = py_lower L abs_url in
      sns_loop L anchors current_url (sns_for_anchor abs_url lower SNS_PATTERNS found))"

definition extract_sns_links :: "'pn lib \<Rightarrow> string \<Rightarrow> string \<Rightarrow> (string \<times> string) list" where
  "extract_sns_links L html current_url = sns_loop L (soup_anchors L html) current_url []"

definition guess_role_emails :: "'pn lib \<Rightarrow> string \<Rightarrow> string list" where
  "guess_role_emails L domain =
     (let domain = py_lower L domain in
      if domain = [] then []
      else [''info@'' @ domain, ''contact@'' @ domain, ''sales@'' @ domain,
            ''support@'' @ domain, ''inquiry@'' @ domain])"

text \<open>
  The body of \<open>for page in pages\<close>, one definition per block of the source. The state is
  the \<open>ExtractionResult\<close> under construction and the set \<open>evidence\<close>.
\<close>

type_synonym extract_state = "extraction_result \<times> string set"

definition scan_contact_form :: "'pn lib \<Rightarrow> page_content \<Rightarrow> extract_state \<Rightarrow> extract_state" where
  "scan_contact_form L page = (\<lambda>(extraction, evidence).
     if \<not> truthy (contact_form_url extraction) then
       (case find_contact_link L (soup_anchors L (pc_html page)) (pc_url page) of
          None \<Rightarrow> (extraction, evidence)
        | Some link \<Rightarrow>
            if link \<noteq> [] then (extraction\<lparr>contact_form_url := Some link\<rparr>, insert link evidence)
            else (extraction, evidence))
     else (extraction, evidence))"

definition scan_emails :: "'pn lib \<Rightarrow> page_content \<Rightarrow> extract_state \<Rightarrow> extract_state" where
  "scan_emails L page = (\<lambda>(extraction, evidence).
     let emails = extract_emails_from_page L (pc_html page);
         role_emails = filter (is_role_email L) emails;
         extraction =
           (if role_emails \<noteq> [] \<and> \<not> truthy (email_main extraction)
            then extraction\<lparr>email_main := Some (hd role_emails)\<rparr> else extraction);
         extraction =
           (if role_emails \<noteq> []
            then extraction\<lparr>email_role_based := email_role_based extraction @ role_emails\<rparr>
            else if emails \<noteq> [] \<and> \<not> truthy (email_main extraction)
            then extraction\<lparr>email_main := Some (hd emails)\<rparr>
            else extraction);
         evidence = (if emails \<noteq> [] then insert (pc_url page) evidence else evidence)
     in (extraction, evidence))"

definition scan_phone_fax :: "'pn lib \<Rightarrow> page_content \<Rightarrow> extract_state \<Rightarrow> extract_state" where
  "scan_phone_fax L page = (\<lambda>(extraction, evidence).
     case extract_phone_fax L (pc_html page) of (phone, fax) \<Rightarrow>
       let (extraction, evidence) =
             (if truthy phone \<and> \<not> truthy (phone_main extraction)
              then (extraction\<lparr>phone_main := phone\<rparr>, insert (pc_url page) evidence)
              else (extraction, evidence))
       in if truthy fax \<and> \<not> truthy (fax_main extraction)
          then (extraction\<lparr>fax_main := fax\<rparr>, insert (pc_url page) evidence)
          else (extraction, evidence))"

fun merge_sns :: "(string \<times> string) list \<Rightarrow> extract_state \<Rightarrow> extract_state" where
  "merge_sns [] (extraction, evidence) = (extraction, evidence)"
| "merge_sns ((key, v) # items) (extraction, evidence) =
     (if key \<notin> fst ` set (sns extraction)
      then merge_sns items (extraction\<lparr>sns := dict_set key v (sns extraction)\<rparr>, insert v evidence)
      else merge_sns items (extraction, evidence))"

definition scan_sns :: "'pn lib \<Rightarrow> page_content \<Rightarrow> extract_state \<Rightarrow> extract_state" where
  "scan_sns L page st = merge_sns (extract_sns_links L (pc_html page) (pc_url page)) st"

definition scan_page :: "'pn lib \<Rightarrow> page_content \<Rightarrow> extract_state \<Rightarrow> extract_state" where
  "scan_page L page st =
     scan_sns L page (scan_phone_fax L page (scan_emails L page (scan_contact_form L page st)))"

definition empty_extraction :: extraction_result where
  "empty_extraction =
     \<lparr>contact_form_url = None, email_main = None, email_role_based = [], email_guessed = [],
      phone_main = None, fax_main = None, sns = [], evidence_sources = []\<rparr>"

text \<open>The block after the loop: the guessed addresses.\<close>

definition add_guesses :: "'pn lib \<Rightarrow> string \<Rightarrow> extract_state \<Rightarrow> extract_state" where
  "add_guesses L domain = (\<lambda>(extraction, evidence).
     if email_role_based extraction = [] then
       (let guessed = guess_role_emails L domain;
            extraction = extraction\<lparr>email_guessed := email_guessed extraction @ guessed\<rparr>;
            extraction =
              (if guessed \<noteq> [] \<and> \<not> truthy (email_main extraction)
               then extraction\<lparr>email_main := Some (hd guessed)\<rparr> else extraction)
        in (extraction, evidence \<union> set guessed))
     else (extraction, evidence))"

definition finish :: "extract_state \<Rightarrow> extraction_result" where
  "finish = (\<lambda>(extraction, evidence).
     extraction\<lparr>email_role_based := sorted_list_of_set (set (email_role_based extraction)),
                email_guessed := sorted_list_of_set (set (email_guessed extraction)),
                evidence_sources := sorted_list_of_set evidence\<rparr>)"

definition scan_pages :: "'pn lib \<Rightarrow> page_content list \<Rightarrow> extract_state" where
  "scan_pages L pages = fold (scan_page L) pages (empty_extraction, {})"

definition extract_contact_info :: "'pn lib \<Rightarrow> page_content list \<Rightarrow> string \<Rightarrow> extraction_result" where
  "extract_contact_info L pages base_url =
     (let domain = netloc (urlparse L base_url)
      in finish (add_guesses L domain (scan_pages L pages)))"

text \<open>
  A string is a valid number in canonical form when it is the E.164 rendering of a number
  that the library parsed and found valid. It is already canonical when, moreover, it is
  \<open>+\<close> and digits only and parsing it (no region) and rendering the result gives it back.
\<close>

definition valid_e164 :: "'pn lib \<Rightarrow> string \<Rightarrow> bool" where
  "valid_e164 L r =
     (\<exists>digits region n. pn_parse L digits region = Some n \<and> pn_is_valid_number L n \<and>
        pn_format_e164 L n = r)"


definition valid_opt :: "'pn lib \<Rightarrow> string option \<Rightarrow> bool" where
  "valid_opt L x = (case x of None \<Rightarrow> True | Some r \<Rightarrow> valid_e164 L r)"



section \<open>A small concrete setting for the examples\<close>

text \<open>
  The examples below run the model on two tiny sites. The library functions are
  instantiated by simple functions that agree with the real ones on every input the
  examples give them: ASCII case mapping, absolute URLs of the form
  \<open>scheme://netloc/path?query#fragment\<close>, links that are absolute or start with \<open>/\<close>,
  and tables for the parsers and the regular expressions. The world is the number of
  requests made so far.
\<close>

definition ascii_lower :: "string \<Rightarrow> string" where
  "ascii_lower = map (\<lambda>c. if CHR ''A'' \<le> c \<and> c \<le> CHR ''Z'' then char_of (of_char c + (32::nat)) else c)"

definition ascii_upper :: "string \<Rightarrow> string" where
  "ascii_upper = map (\<lambda>c. if CHR ''a'' \<le> c \<and> c \<le> CHR ''z'' then char_of (of_char c - (32::nat)) else c)"

definition demo_urlparse :: "string \<Rightarrow> parsed_url" where
  "demo_urlparse u =
     (let sch = takeWhile (\<lambda>c. c \<noteq> CHR '':'') u;
          after_scheme = drop (length sch + 3) u;
          loc = takeWhile (\<lambda>c. c \<notin> {CHR ''/'', CHR ''?'', CHR ''#''}) after_scheme;
          after_loc = dropWhile (\<lambda>c. c \<notin> {CHR ''/'', CHR ''?'', CHR ''#''}) after_scheme;
          pth = takeWhile (\<lambda>c. c \<notin> {CHR ''?'', CHR ''#''}) after_loc;
          after_path = dropWhile (\<lambda>c. c \<notin> {CHR ''?'', CHR ''#''}) after_loc;
          qry = (if prefix ''?'' after_path
                 then takeWhile (\<lambda>c. c \<noteq> CHR ''#'') (tl after_path) else []);
          frag = (case dropWhile (\<lambda>c. c \<noteq> CHR ''#'') after_path of [] \<Rightarrow> [] | _ # f \<Rightarrow> f)
      in \<lparr>scheme = sch, netloc = loc, path = pth, params = [], query = qry, fragment = frag\<rparr>)"

definition demo_geturl :: "parsed_url \<Rightarrow> string" where
  "demo_geturl p =
     scheme p @ ''://'' @ netloc p @ path p
       @ (if query p = [] then [] else ''?'' @ query p)
       @ (if fragment p = [] then [] else ''#'' @ fragment p)"

definition demo_urljoin :: "string \<Rightarrow> string \<Rightarrow> string" where
  "demo_urljoin base href =
     (if prefix ''/'' href
      then scheme (demo_urlparse base) @ ''://'' @ netloc (demo_urlparse base) @ href
      else href)"

definition home_html :: string where
  "home_html = ''<a href=/news>News</a><a href=/contact>Reach us</a>''"

definition other_html :: string where
  "other_html = ''<a href=/news>News</a><a href=/company>contact us</a>''"

definition mail_html :: string where
  "mail_html =
     ''<a href=mailto:sales@example.co.jp>Sales</a><a href=mailto:info@example.co.jp>Info</a>''"

definition sns_html :: string where
  "sns_html =
     ''<a href=https://www.linkedin.com/company/first>A</a><a href=https://www.linkedin.com/company/second>B</a>''"

definition tel_html :: string where
  "tel_html = ''<p>TEL: 03-1234-5678</p><p>FAX: 03-12</p>''"

definition demo_anchors :: "string \<Rightarrow> anchor list" where
  "demo_anchors html =
     (if html = home_html then
        [\<lparr>a_href = ''/news'', a_text = ''News''\<rparr>,
         \<lparr>a_href = ''/contact'', a_text = ''Reach us''\<rparr>]
      else if html = other_html then
        [\<lparr>a_href = ''/news'', a_text = ''News''\<rparr>,
         \<lparr>a_href = ''/company'', a_text = ''contact us''\<rparr>]
      else if html = mail_html then
        [\<lparr>a_href = ''mailto:sales@example.co.jp'', a_text = ''Sales''\<rparr>,
         \<lparr>a_href = ''mailto:info@example.co.jp'', a_text = ''Info''\<rparr>]
      else if html = sns_html then
        [\<lparr>a_href = ''https://www.linkedin.com/company/first'', a_text = ''A''\<rparr>,
         \<lparr>a_href = ''https://www.linkedin.com/company/second'', a_text = ''B''\<rparr>]
      else [])"

definition demo_stripped_strings :: "string \<Rightarrow> string list" where
  "demo_stripped_strings html =
     (if html = home_html then [''News'', ''Reach us'']
      else if html = other_html then [''News'', ''contact us'']
      else if html = mail_html then [''Sales'', ''Info'']
      else if html = sns_html then [''A'', ''B'']
      else if html = tel_html then [''TEL: 03-1234-5678'', ''FAX: 03-12'']
      else [])"

definition demo_pn_parse :: "string \<Rightarrow> string option \<Rightarrow> string option" where
  "demo_pn_parse digits region =
     (if prefix ''+'' digits \<and> region = None then Some digits
      else if prefix ''0'' digits \<and> region = Some ''JP'' then Some (''+81'' @ tl digits)
      else None)"

definition demo_tld_extract :: "string \<Rightarrow> string \<times> string" where
  "demo_tld_extract u =
     (if netloc (demo_urlparse u) \<in> {''example.co.jp'', ''www.example.co.jp''}
      then (''example'', ''co.jp'') else ([], []))"

definition demo_lib :: "string lib" where
  "demo_lib =
     \<lparr>py_lower = ascii_lower,
      py_upper = ascii_upper,
      py_strip = (\<lambda>s. s),
      soup_get_text = (\<lambda>html. join '' '' (demo_stripped_strings html)),
      soup_anchors = demo_anchors,
      soup_stripped_strings = demo_stripped_strings,
      urlparse = demo_urlparse,
      geturl = demo_geturl,
      url_hostname = (\<lambda>p. if netloc p = [] then None else Some (ascii_lower (netloc p))),
      urljoin = demo_urljoin,
      re_search_ci = (\<lambda>pat s. sublist (ascii_lower pat) (ascii_lower s)),
      email_fullmatch = (\<lambda>s. s \<in> {''sales@example.co.jp'', ''info@example.co.jp''}),
      email_findall = (\<lambda>s. []),
      phone_findall = (\<lambda>s. if s = ''TEL: 03-1234-5678 FAX: 03-12'' then [''03-1234-5678''] else []),
      pn_parse = demo_pn_parse,
      pn_is_valid_number = (\<lambda>n. n = ''+81312345678''),
      pn_format_e164 = (\<lambda>n. n),
      tld_extract = demo_tld_extract\<rparr>"

definition demo_get :: "nat http_get" where
  "demo_get w u =
     (if u = ''https://example.co.jp/''
        then (Some \<lparr>resp_url = ''https://example.co.jp/'', resp_text = home_html\<rparr>, Suc w)
      else if u = ''https://example.org/''
        then (Some \<lparr>resp_url = ''https://example.org/'', resp_text = other_html\<rparr>, Suc w)
      else (None, Suc w))"

definition demo_settings :: settings where
  "demo_settings = \<lparr>crawler_max_pages = 6, crawler_max_depth = 2\<rparr>"

definition candidate :: "string \<Rightarrow> search_result" where
  "candidate u = \<lparr>sr_title = u, sr_url = u, sr_snippet = None, sr_rank = None\<rparr>"

definition home_page :: page_content where
  "home_page = \<lparr>pc_url = ''https://example.co.jp/'', pc_html = home_html,
                 pc_text = ''News Reach us''\<rparr>"

definition other_page :: page_content where
  "other_page = \<lparr>pc_url = ''https://example.org/'', pc_html = other_html,
                  pc_text = ''News contact us''\<rparr>"


definition sns_page :: page_content where
  "sns_page = \<lparr>pc_url = ''https://example.co.jp/links'', pc_html = sns_html,
                pc_text = ''A B''\<rparr>"


definition start_state :: "string \<Rightarrow> nat crawl_state" where
  "start_state u = \<lparr>queue = [(u, 0)], visited = {}, results = [], world = 0\<rparr>"

section \<open>The selector: absent results and the choice of the best candidate\<close>

lemma select_loop_fold:
  "fst (select_loop L get nn rs best w)
     = fold keep_better (fetched_candidates L get nn rs w) best"
  by (induction rs arbitrary: best w)
     (auto simp: keep_better_def Let_def split: prod.splits option.splits)

lemma first_max_step:
  "first_max (b # c # cs) = first_max ((if sc_score c > sc_score b then c else b) # cs)"
  unfolding first_max_def
  by (auto simp: list_all_iff intro!: find_cong)

lemma fold_keep_better_Some: "fold keep_better cs (Some b) = first_max (b # cs)"
proof (induction cs arbitrary: b)
  case Nil
  show ?case by (simp add: first_max_def)
next
  case (Cons c cs)
  have "fold keep_better (c # cs) (Some b)
          = fold keep_better cs (Some (if sc_score c > sc_score b then c else b))"
    by (simp add: keep_better_def)
  then show ?case using Cons.IH first_max_step by simp
qed

lemma fold_keep_better_None: "fold keep_better cs None = first_max cs"
  by (cases cs) (simp_all add: first_max_def keep_better_def fold_keep_better_Some)



lemma fetch_logged:
  "fetch L (logged get) (w, urls) u
     = (fst (fetch L get w u), (snd (fetch L get w u), urls @ [u]))"
  by (simp add: fetch_def logged_def split: prod.splits option.splits)




text \<open>
  Claim C5. \<open>select\<close> returns the first candidate, in input order, whose score no other
  successfully fetched candidate exceeds: a later candidate wins only with a strictly
  higher score. When exactly one candidate was fetched, it is returned whatever its score.
\<close>

theorem select_first_max:
  "fst (select L get company_name candidates w)
     = first_max (fetched_candidates L get (normalize_company_name L company_name) candidates w)
   \<and> (fetched_candidates L get (normalize_company_name L company_name) candidates w = [c]
        \<longrightarrow> fst (select L get company_name candidates w) = Some c)"
proof -
  have "fst (select L get company_name candidates w)
     = first_max (fetched_candidates L get (normalize_company_name L company_name) candidates w)"
    by (simp add: select_def select_loop_fold fold_keep_better_None)
  then show ?thesis by (simp add: first_max_def)
qed

theorem select_first_max_witness:
  "fetched_candidates demo_lib demo_get (normalize_company_name demo_lib ''Example Inc.'')
     [candidate [], candidate ''https://down.example/'', candidate ''https://example.co.jp/''] 0
     = [\<lparr>sc_search_result = candidate ''https://example.co.jp/'',
         sc_page = Some \<lparr>pc_url = ''https://example.co.jp/'', pc_html = home_html,
                          pc_text = ''News Reach us''\<rparr>,
         sc_score = 3\<rparr>]
   \<and> fst (select demo_lib demo_get ''Example Inc.''
        [candidate [], candidate ''https://down.example/'', candidate ''https://example.co.jp/''] 0)
     = Some \<lparr>sc_search_result = candidate ''https://example.co.jp/'',
         sc_page = Some \<lparr>pc_url = ''https://example.co.jp/'', pc_html = home_html,
                          pc_text = ''News Reach us''\<rparr>,
         sc_score = 3\<rparr>"
proof -
  have h: "fetched_candidates demo_lib demo_get (normalize_company_name demo_lib ''Example Inc.'')
     [candidate [], candidate ''https://down.example/'', candidate ''https://example.co.jp/''] 0
     = [\<lparr>sc_search_result = candidate ''https://example.co.jp/'',
         sc_page = Some \<lparr>pc_url = ''https://example.co.jp/'', pc_html = home_html,
                          pc_text = ''News Reach us''\<rparr>,
         sc_score = 3\<rparr>]"
    by code_simp
  from select_first_max [of demo_lib demo_get "''Example Inc.''" _ 0] h show ?thesis
    by blast
qed

section \<open>The crawler: page limit, revisits, the seed, and the order of links\<close>

lemma crawl_loop_invariant:
  assumes "I s"
    and "\<And>t. I t \<Longrightarrow> crawl_cond S t \<Longrightarrow> I (crawl_body L S get base_host t)"
  shows "I (crawl_loop L S get base_host s)"
  using assms
proof (induction L S get base_host s rule: crawl_loop.induct)
  case (1 L S get base_host s)
  show ?case
  proof (cases "crawl_cond S s")
    case True
    then have "I (crawl_body L S get base_host s)" using "1.prems" by blast
    then have "I (crawl_loop L S get base_host (crawl_body L S get base_host s))"
      using "1.IH" [OF True] "1.prems"(2) by blast
    with True show ?thesis
      by (subst crawl_loop.simps) (simp del: crawl_body.simps)
  next
    case False
    with "1.prems"(1) show ?thesis by (subst crawl_loop.simps) simp
  qed
qed

lemma crawl_body_results:
  "results (crawl_body L S get base_host s) = results s \<or>
   (\<exists>page. results (crawl_body L S get base_host s) = results s @ [page])"
  by (auto simp: Let_def split: list.splits prod.splits option.splits)

lemma crawl_loop_length:
  assumes "int (length (results s)) \<le> max 0 (crawler_max_pages S)"
  shows "int (length (results (crawl_loop L S get base_host s))) \<le> max 0 (crawler_max_pages S)"
proof (rule crawl_loop_invariant [where I = "\<lambda>t. int (length (results t)) \<le> max 0 (crawler_max_pages S)"])
  show "int (length (results s)) \<le> max 0 (crawler_max_pages S)" by (rule assms)
next
  fix t :: "'a crawl_state"
  assume "crawl_cond S t"
  then have "int (length (results t)) < crawler_max_pages S" by (simp add: crawl_cond_def)
  with crawl_body_results [of L S get base_host t]
  show "int (length (results (crawl_body L S get base_host t))) \<le> max 0 (crawler_max_pages S)"
    by (auto simp del: crawl_body.simps)
qed


lemma crawl_body_log_ok:
  assumes "log_ok L s"
  shows "log_ok L (crawl_body L S (logged get) base_host s)"
proof (cases "queue s")
  case Nil
  with assms show ?thesis by simp
next
  case (Cons e rest)
  obtain url depth where e: "e = (url, depth)" by (cases e)
  obtain w urls where w: "world s = (w, urls)" by (cases "world s")
  show ?thesis using assms
    by (auto simp: Cons e w log_ok_def fetch_logged Let_def split: option.splits)
qed

lemma crawl_loop_log_ok:
  "log_ok L s \<Longrightarrow> log_ok L (crawl_loop L S (logged get) base_host s)"
  by (rule crawl_loop_invariant [where I = "log_ok L"]) (simp_all add: crawl_body_log_ok del: crawl_body.simps)

text \<open>
  Claim C2, as amended. For every start URL and every configuration, \<open>crawl\<close> returns at
  most \<open>max(0, crawler_max_pages)\<close> pages, and the URLs it requests have pairwise distinct
  normal forms (fragment removed): no normalized URL is fetched twice in a run.
\<close>

theorem crawl_bounded_distinct:
  "int (length (fst (crawl L S get base_url w))) \<le> max 0 (crawler_max_pages S)
   \<and> distinct (map (normalize_url L) (snd (snd (crawl L S (logged get) base_url (w, [])))))"
proof
  show "int (length (fst (crawl L S get base_url w))) \<le> max 0 (crawler_max_pages S)"
    by (simp add: crawl_def Let_def crawl_loop_length)
next
  have "log_ok L \<lparr>queue = [(base_url, 0)], visited = {}, results = [], world = (w, [])\<rparr>"
    by (simp add: log_ok_def)
  then have "log_ok L (crawl_loop L S (logged get) (netloc (urlparse L base_url))
      \<lparr>queue = [(base_url, 0)], visited = {}, results = [], world = (w, [])\<rparr>)"
    by (rule crawl_loop_log_ok)
  then show "distinct (map (normalize_url L) (snd (snd (crawl L S (logged get) base_url (w, [])))))"
    by (simp add: crawl_def Let_def log_ok_def)
qed

theorem crawl_bounded_distinct_witness:
  "int (length (fst (crawl demo_lib demo_settings demo_get ''https://example.co.jp/'' 0))) \<le> 6
   \<and> distinct (map (normalize_url demo_lib)
        (snd (snd (crawl demo_lib demo_settings (logged demo_get) ''https://example.co.jp/'' (0, [])))))"
  using crawl_bounded_distinct [of demo_lib demo_settings demo_get "''https://example.co.jp/''" 0]
  by (simp add: demo_settings_def)

text \<open>
  The claim as stated, "at most \<open>crawler_max_pages\<close> pages for every configuration", fails
  for a negative limit: the loop is not entered and the empty result has more than \<open>-1\<close>
  pages.
\<close>

theorem crawl_limit_counterexample:
  "\<not> int (length (fst (crawl demo_lib \<lparr>crawler_max_pages = - 1, crawler_max_depth = 2\<rparr> demo_get
        ''https://example.co.jp/'' 0))) \<le> crawler_max_pages \<lparr>crawler_max_pages = - 1, crawler_max_depth = 2\<rparr>"
  by (simp add: crawl_def crawl_loop.simps crawl_cond_def)




lemma crawl_body_queue:
  assumes "queue t = e # q"
  shows "\<exists>Fr Bk. queue (crawl_body L S get base_host t) = Fr @ q @ Bk \<and>
           (\<forall>x \<in> set Fr. snd x = snd e + 1)"
proof -
  obtain url depth where e: "e = (url, depth)" by (cases e)
  have nil: "\<exists>Fr Bk. q = Fr @ q @ Bk \<and> (\<forall>x \<in> set Fr. snd x = snd e + 1)"
    by (rule exI [of _ "[]"], rule exI [of _ "[]"]) simp
  have links: "\<exists>Fr Bk. enqueue_links L base_host page depth links q = Fr @ q @ Bk \<and>
           (\<forall>x \<in> set Fr. snd x = snd e + 1)" for page links
    by (rule exI [of _ "rev (front_links L base_host page depth links)"],
        rule exI [of _ "back_links L base_host page depth links"])
       (auto simp: enqueue_links_eq front_links_def e)
  show ?thesis using nil links
    by (simp add: assms e Let_def split: prod.splits option.splits)
qed

lemma front_phase_hd:
  assumes "front_phase F f d q" and "b \<notin> set F" and "snd b = d"
  shows "hd q \<noteq> b"
proof -
  from assms(1) obtain D R X where q: "q = D @ R @ X" and D: "\<forall>e \<in> set D. d < snd e"
    and R: "f \<in> set R" "set R \<subseteq> set F"
    by (auto simp: front_phase_def)
  show ?thesis
  proof (cases D)
    case Nil
    with R q have "hd q \<in> set F" by (cases R) auto
    with assms(2) show ?thesis by auto
  next
    case (Cons e D')
    with q D have "d < snd (hd q)" by simp
    with assms(3) show ?thesis by auto
  qed
qed

lemma front_phase_step:
  assumes ph: "front_phase F f d (queue t)" and nf: "hd (queue t) \<noteq> f"
    and F: "\<forall>e \<in> set F. snd e = d"
  shows "front_phase F f d (queue (crawl_body L S get base_host t))"
proof -
  from ph obtain D R X where q: "queue t = D @ R @ X" and D: "\<forall>e \<in> set D. d < snd e"
    and R: "f \<in> set R" "set R \<subseteq> set F"
    by (auto simp: front_phase_def)
  show ?thesis
  proof (cases D)
    case Nil
    from R obtain r R' where r: "R = r # R'" by (cases R) auto
    with q Nil have qt: "queue t = r # (R' @ X)" by simp
    from crawl_body_queue [OF qt] obtain Fr Bk
      where b: "queue (crawl_body L S get base_host t) = Fr @ (R' @ X) @ Bk"
        and Fr: "\<forall>x \<in> set Fr. snd x = snd r + 1" by blast
    from r R F have "snd r = d" by auto
    with Fr have "\<forall>e \<in> set Fr. d < snd e" by simp
    moreover from nf qt r R have "f \<in> set R'" "set R' \<subseteq> set F" by auto
    moreover from b have "queue (crawl_body L S get base_host t) = Fr @ R' @ (X @ Bk)" by simp
    ultimately show ?thesis unfolding front_phase_def by blast
  next
    case (Cons e D')
    with q have qt: "queue t = e # (D' @ R @ X)" by simp
    from crawl_body_queue [OF qt] obtain Fr Bk
      where b: "queue (crawl_body L S get base_host t) = Fr @ (D' @ R @ X) @ Bk"
        and Fr: "\<forall>x \<in> set Fr. snd x = snd e + 1" by blast
    from D Cons have "d < snd e" "\<forall>x \<in> set D'. d < snd x" by simp_all
    with Fr have "\<forall>x \<in> set (Fr @ D'). d < snd x" by auto
    moreover from b have "queue (crawl_body L S get base_host t) = (Fr @ D') @ R @ (X @ Bk)" by simp
    ultimately show ?thesis using R unfolding front_phase_def by blast
  qed
qed

lemma front_phase_run:
  assumes "front_phase F f d (queue s)" and "\<forall>e \<in> set F. snd e = d"
  shows "(\<exists>m<n. hd (queue ((crawl_body L S get base_host ^^ m) s)) = f) \<or>
         front_phase F f d (queue ((crawl_body L S get base_host ^^ n) s))"
proof (induction n)
  case 0
  from assms(1) show ?case by simp
next
  case (Suc n)
  show ?case
  proof (cases "\<exists>m<n. hd (queue ((crawl_body L S get base_host ^^ m) s)) = f")
    case True
    then show ?thesis using less_SucI by blast
  next
    case False
    with Suc have ph: "front_phase F f d (queue ((crawl_body L S get base_host ^^ n) s))" by blast
    show ?thesis
    proof (cases "hd (queue ((crawl_body L S get base_host ^^ n) s)) = f")
      case True
      then show ?thesis by blast
    next
      case False
      from front_phase_step [OF ph False assms(2), of L S get base_host]
      show ?thesis by (simp del: crawl_body.simps)
    qed
  qed
qed

lemma front_phase_dequeued_before:
  assumes "front_phase F f d (queue s)" and "\<forall>e \<in> set F. snd e = d"
    and "b \<notin> set F" and "snd b = d"
  shows "dequeued_before L S get base_host s f b"
  unfolding dequeued_before_def
proof (intro allI impI)
  fix n
  assume a: "(\<forall>m\<le>n. crawl_cond S ((crawl_body L S get base_host ^^ m) s)) \<and>
          hd (queue ((crawl_body L S get base_host ^^ n) s)) = b"
  from front_phase_run [OF assms(1,2), of n L S get base_host]
  show "\<exists>m<n. hd (queue ((crawl_body L S get base_host ^^ m) s)) = f"
  proof
    assume "front_phase F f d (queue ((crawl_body L S get base_host ^^ n) s))"
    from front_phase_hd [OF this assms(3,4)] a show ?thesis by simp
  qed
qed

text \<open>
  Claim C3, as amended. Take an iteration that fetches a page below the depth limit, and
  two of its links that pass the filters (same host, http or https): one whose \<open>href\<close>,
  lower-cased, contains a contact keyword, and one whose \<open>href\<close> contains none and whose
  URL is not also the target of a keyword \<open>href\<close> of that page. Then, in the rest of the
  run, whenever the second is dequeued the first was dequeued before it. The anchor text
  plays no part.
\<close>

theorem contact_links_first:
  assumes q: "queue s = (url, depth) # rest"
    and nv: "normalize_url L url \<notin> visited s"
    and fe: "fetch L get (world s) url = (Some page, w')"
    and dp: "int depth < crawler_max_depth S"
    and lf: "link_f \<in> set (soup_anchors L (pc_html page))" "kept_link L base_host page link_f"
            "contact_href L link_f"
    and lb: "link_b \<in> set (soup_anchors L (pc_html page))" "kept_link L base_host page link_b"
            "\<not> contact_href L link_b"
    and nb: "(urljoin L (pc_url page) (a_href link_b), depth + 1)
               \<notin> set (front_links L base_host page depth (soup_anchors L (pc_html page)))"
  shows "dequeued_before L S get base_host (crawl_body L S get base_host s)
           (urljoin L (pc_url page) (a_href link_f), depth + 1)
           (urljoin L (pc_url page) (a_href link_b), depth + 1)"
proof -
  let ?F = "front_links L base_host page depth (soup_anchors L (pc_html page))"
  let ?B = "back_links L base_host page depth (soup_anchors L (pc_html page))"
  let ?f = "(urljoin L (pc_url page) (a_href link_f), depth + 1)"
  from q nv fe dp have qs: "queue (crawl_body L S get base_host s) = rev ?F @ rest @ ?B"
    by (simp add: Let_def enqueue_links_eq)
  from lf have "?f \<in> set ?F" by (force simp: front_links_def)
  then have "front_phase ?F ?f (depth + 1) (queue (crawl_body L S get base_host s))"
    unfolding front_phase_def qs
    by (intro exI [of _ "[]"] exI [of _ "rev ?F"] exI [of _ "rest @ ?B"]) simp
  moreover have "\<forall>e \<in> set ?F. snd e = depth + 1" by (auto simp: front_links_def)
  ultimately show ?thesis using nb
    by (rule front_phase_dequeued_before) simp
qed

theorem contact_links_first_witness:
  "queue (start_state ''https://example.co.jp/'') = (''https://example.co.jp/'', 0) # []
   \<and> normalize_url demo_lib ''https://example.co.jp/'' \<notin> visited (start_state ''https://example.co.jp/'')
   \<and> fetch demo_lib demo_get (world (start_state ''https://example.co.jp/'')) ''https://example.co.jp/''
       = (Some home_page, 1)
   \<and> int 0 < crawler_max_depth demo_settings
   \<and> \<lparr>a_href = ''/contact'', a_text = ''Reach us''\<rparr> \<in> set (soup_anchors demo_lib (pc_html home_page))
   \<and> kept_link demo_lib ''example.co.jp'' home_page \<lparr>a_href = ''/contact'', a_text = ''Reach us''\<rparr>
   \<and> contact_href demo_lib \<lparr>a_href = ''/contact'', a_text = ''Reach us''\<rparr>
   \<and> \<lparr>a_href = ''/news'', a_text = ''News''\<rparr> \<in> set (soup_anchors demo_lib (pc_html home_page))
   \<and> kept_link demo_lib ''example.co.jp'' home_page \<lparr>a_href = ''/news'', a_text = ''News''\<rparr>
   \<and> \<not> contact_href demo_lib \<lparr>a_href = ''/news'', a_text = ''News''\<rparr>
   \<and> (''https://example.co.jp/news'', 1)
        \<notin> set (front_links demo_lib ''example.co.jp'' home_page 0 (soup_anchors demo_lib (pc_html home_page)))
   \<and> dequeued_before demo_lib demo_settings demo_get ''example.co.jp''
        (crawl_body demo_lib demo_settings demo_get ''example.co.jp'' (start_state ''https://example.co.jp/''))
        (''https://example.co.jp/contact'', 1) (''https://example.co.jp/news'', 1)"
proof -
  let ?f = "\<lparr>a_href = ''/contact'', a_text = ''Reach us''\<rparr>"
  let ?b = "\<lparr>a_href = ''/news'', a_text = ''News''\<rparr>"
  let ?s = "start_state ''https://example.co.jp/''"
  have h1: "queue ?s = (''https://example.co.jp/'', 0) # []" by (simp add: start_state_def)
  have h2: "normalize_url demo_lib ''https://example.co.jp/'' \<notin> visited ?s"
    by (simp add: start_state_def)
  have h3: "fetch demo_lib demo_get (world ?s) ''https://example.co.jp/'' = (Some home_page, 1)"
    by code_simp
  have h4: "int 0 < crawler_max_depth demo_settings" by (simp add: demo_settings_def)
  have h5: "?f \<in> set (soup_anchors demo_lib (pc_html home_page))" by code_simp
  have h6: "kept_link demo_lib ''example.co.jp'' home_page ?f" by code_simp
  have h7: "contact_href demo_lib ?f" by code_simp
  have h8: "?b \<in> set (soup_anchors demo_lib (pc_html home_page))" by code_simp
  have h9: "kept_link demo_lib ''example.co.jp'' home_page ?b" by code_simp
  have h10: "\<not> contact_href demo_lib ?b" by code_simp
  have uf: "urljoin demo_lib (pc_url home_page) (a_href ?f) = ''https://example.co.jp/contact''"
    by code_simp
  have ub: "urljoin demo_lib (pc_url home_page) (a_href ?b) = ''https://example.co.jp/news''"
    by code_simp
  have h11: "(''https://example.co.jp/news'', 1)
        \<notin> set (front_links demo_lib ''example.co.jp'' home_page 0 (soup_anchors demo_lib (pc_html home_page)))"
    by code_simp
  from h11 have h11': "(urljoin demo_lib (pc_url home_page) (a_href ?b), 0 + 1)
        \<notin> set (front_links demo_lib ''example.co.jp'' home_page 0 (soup_anchors demo_lib (pc_html home_page)))"
    by (simp only: ub) simp
  from contact_links_first [where S = demo_settings, OF h1 h2 h3 h4 h5 h6 h7 h8 h9 h10 h11']
  have "dequeued_before demo_lib demo_settings demo_get ''example.co.jp''
        (crawl_body demo_lib demo_settings demo_get ''example.co.jp'' ?s)
        (''https://example.co.jp/contact'', 1) (''https://example.co.jp/news'', 1)"
    by (simp only: uf ub) simp
  with h1 h2 h3 h4 h5 h6 h7 h8 h9 h10 h11 show ?thesis by blast
qed

text \<open>
  The claim as stated speaks of the anchor text. On the page
  \<open><a href=/news>News</a><a href=/company>contact us</a>\<close> the second link has a keyword
  in its text and the first has none, both pass the filters, and the first iteration after
  the page dequeues \<open>/news\<close>: the link without a keyword comes first.
\<close>

theorem contact_text_counterexample:
  "\<lparr>a_href = ''/company'', a_text = ''contact us''\<rparr> \<in> set (soup_anchors demo_lib (pc_html other_page))
   \<and> kept_link demo_lib ''example.org'' other_page \<lparr>a_href = ''/company'', a_text = ''contact us''\<rparr>
   \<and> contact_text demo_lib \<lparr>a_href = ''/company'', a_text = ''contact us''\<rparr>
   \<and> \<lparr>a_href = ''/news'', a_text = ''News''\<rparr> \<in> set (soup_anchors demo_lib (pc_html other_page))
   \<and> kept_link demo_lib ''example.org'' other_page \<lparr>a_href = ''/news'', a_text = ''News''\<rparr>
   \<and> \<not> contact_text demo_lib \<lparr>a_href = ''/news'', a_text = ''News''\<rparr>
   \<and> fetch demo_lib demo_get 0 ''https://example.org/'' = (Some other_page, 1)
   \<and> \<not> dequeued_before demo_lib demo_settings demo_get ''example.org''
        (crawl_body demo_lib demo_settings demo_get ''example.org'' (start_state ''https://example.org/''))
        (''https://example.org/company'', 1) (''https://example.org/news'', 1)"
proof -
  let ?s1 = "crawl_body demo_lib demo_settings demo_get ''example.org'' (start_state ''https://example.org/'')"
  have q: "queue ?s1 = [(''https://example.org/news'', 1), (''https://example.org/company'', 1)]"
    by code_simp
  have c: "crawl_cond demo_settings ?s1" by code_simp
  have "\<not> dequeued_before demo_lib demo_settings demo_get ''example.org'' ?s1
        (''https://example.org/company'', 1) (''https://example.org/news'', 1)"
  proof
    assume "dequeued_before demo_lib demo_settings demo_get ''example.org'' ?s1
        (''https://example.org/company'', 1) (''https://example.org/news'', 1)"
    then have "(\<forall>m\<le>0. crawl_cond demo_settings ((crawl_body demo_lib demo_settings demo_get ''example.org'' ^^ m) ?s1)) \<and>
          hd (queue ((crawl_body demo_lib demo_settings demo_get ''example.org'' ^^ 0) ?s1)) = (''https://example.org/news'', 1)
          \<longrightarrow> (\<exists>m<0. hd (queue ((crawl_body demo_lib demo_settings demo_get ''example.org'' ^^ m) ?s1)) = (''https://example.org/company'', 1))"
      unfolding dequeued_before_def by blast
    with c q show False by (simp del: crawl_body.simps)
  qed
  moreover have "\<lparr>a_href = ''/company'', a_text = ''contact us''\<rparr> \<in> set (soup_anchors demo_lib (pc_html other_page))"
    by code_simp
  moreover have "kept_link demo_lib ''example.org'' other_page \<lparr>a_href = ''/company'', a_text = ''contact us''\<rparr>"
    by code_simp
  moreover have "contact_text demo_lib \<lparr>a_href = ''/company'', a_text = ''contact us''\<rparr>" by code_simp
  moreover have "\<lparr>a_href = ''/news'', a_text = ''News''\<rparr> \<in> set (soup_anchors demo_lib (pc_html other_page))"
    by code_simp
  moreover have "kept_link demo_lib ''example.org'' other_page \<lparr>a_href = ''/news'', a_text = ''News''\<rparr>"
    by code_simp
  moreover have "\<not> contact_text demo_lib \<lparr>a_href = ''/news'', a_text = ''News''\<rparr>" by code_simp
  moreover have "fetch demo_lib demo_get 0 ''https://example.org/'' = (Some other_page, 1)" by code_simp
  ultimately show ?thesis by blast
qed

section \<open>Extraction: guessed addresses, phone numbers, social links, emails, evidence\<close>

lemma scan_contact_form_fields [simp]:
  "email_main (fst (scan_contact_form L page st)) = email_main (fst st)"
  "email_role_based (fst (scan_contact_form L page st)) = email_role_based (fst st)"
  "email_guessed (fst (scan_contact_form L page st)) = email_guessed (fst st)"
  "phone_main (fst (scan_contact_form L page st)) = phone_main (fst st)"
  "fax_main (fst (scan_contact_form L page st)) = fax_main (fst st)"
  by (auto simp: scan_contact_form_def split: prod.splits option.splits)

lemma scan_emails_fields [simp]:
  "email_guessed (fst (scan_emails L page st)) = email_guessed (fst st)"
  "phone_main (fst (scan_emails L page st)) = phone_main (fst st)"
  "fax_main (fst (scan_emails L page st)) = fax_main (fst st)"
  by (auto simp: scan_emails_def Let_def split: prod.splits)

lemma scan_phone_fax_fields [simp]:
  "email_main (fst (scan_phone_fax L page st)) = email_main (fst st)"
  "email_role_based (fst (scan_phone_fax L page st)) = email_role_based (fst st)"
  "email_guessed (fst (scan_phone_fax L page st)) = email_guessed (fst st)"
  by (auto simp: scan_phone_fax_def Let_def split: prod.splits)

lemma merge_sns_fields [simp]:
  "email_main (fst (merge_sns items st)) = email_main (fst st)"
  "email_role_based (fst (merge_sns items st)) = email_role_based (fst st)"
  "email_guessed (fst (merge_sns items st)) = email_guessed (fst st)"
  "phone_main (fst (merge_sns items st)) = phone_main (fst st)"
  "fax_main (fst (merge_sns items st)) = fax_main (fst st)"
  by (induction items st rule: merge_sns.induct; simp)+



lemma scan_page_guessed [simp]:
  "email_guessed (fst (scan_page L page st)) = email_guessed (fst st)"
  by (simp add: scan_page_def scan_sns_def)







lemma normalize_phone_valid: "normalize_phone L raw = Some r \<Longrightarrow> valid_e164 L r"
  by (auto simp: normalize_phone_def valid_e164_def Let_def split: if_splits option.splits)

lemma normalize_phone_valid_opt [simp]: "valid_opt L (normalize_phone L raw)"
  by (auto simp: valid_opt_def dest: normalize_phone_valid split: option.splits)










text \<open>
  Claim C7, at an input where the code departs from it. On a page whose anchors are two
  LinkedIn company links, the stored entry is the second, not the first in document order:
  within one page \<open>_extract_sns_links\<close> overwrites an earlier match with a later one (only
  across pages does the first match win).
\<close>

theorem sns_last_anchor_of_page_wins:
  "soup_anchors demo_lib (pc_html sns_page)
     = [\<lparr>a_href = ''https://www.linkedin.com/company/first'', a_text = ''A''\<rparr>,
        \<lparr>a_href = ''https://www.linkedin.com/company/second'', a_text = ''B''\<rparr>]
   \<and> sns (extract_contact_info demo_lib [sns_page] ''https://example.co.jp/'')
       = [(''sns_linkedin'', ''https://www.linkedin.com/company/second'')]"
  by code_simp


















end
